theory Spec2Isabelle
  imports Complex_Main "HOL-Library.Sublist" "HOL-Library.AList"
begin

section \<open>Strings: Python's \<open>str.replace\<close> and \<open>in\<close>\<close>

text \<open>
  The export script renames checkpoint keys with \<^verbatim>\<open>k.replace(old, new)\<close>.
  Python scans the string from the left; at each position where \<open>old\<close> starts it emits
  \<open>new\<close> and continues after the match, so matches never overlap. With an empty
  \<open>old\<close> it puts \<open>new\<close> before every character and at the end.
\<close>

function str_replace :: "string \<Rightarrow> string \<Rightarrow> string \<Rightarrow> string" where
  "str_replace old new s =
     (if old = [] then new @ concat (map (\<lambda>c. c # new) s)
      else if s = [] then []
      else if prefix old s then new @ str_replace old new (drop (length old) s)
      else hd s # str_replace old new (tl s))"
  by pat_completeness auto
termination
  by (relation "measure (\<lambda>(old, new, s). length s)") auto

declare str_replace.simps [simp del]

text \<open>\<^verbatim>\<open>sub in s\<close>: \<open>sub\<close> occurs in \<open>s\<close> as a contiguous block.\<close>

fun contains :: "string \<Rightarrow> string \<Rightarrow> bool" where
  "contains sub [] = (sub = [])"
| "contains sub (c # cs) = (prefix sub (c # cs) \<or> contains sub cs)"

section \<open>Tensors and checkpoints\<close>

text \<open>
  A tensor is its shape and its elements; \<^verbatim>\<open>len(v.shape)\<close> is the rank. A checkpoint
  is an ordered dictionary from parameter names to tensors: an association list with
  the entries in insertion order. Storing under a key that is present overwrites the
  value in place, storing under a new key appends the entry.
\<close>

datatype 'a tensor = Tensor (shape: "nat list") (elems: "'a list")

definition rank :: "'a tensor \<Rightarrow> nat" where
  "rank v = length (shape v)"

type_synonym 'a checkpoint = "(string \<times> 'a tensor) list"

section \<open>The legacy key remapping (export script, lines 96 to 101)\<close>

text \<open>
  \<^verbatim>\<open>
  new_k = k.replace('.conv.', '.mconv.')
  if len(v.shape) == 3:
      new_k = new_k.replace('.weight', '.conv.weight')
  \<close>
\<close>

definition remap_key :: "string \<Rightarrow> 'a tensor \<Rightarrow> string" where
  "remap_key k v =
     (let new_k = str_replace ''.conv.'' ''.mconv.'' k
      in if rank v = 3 then str_replace ''.weight'' ''.conv.weight'' new_k else new_k)"

text \<open>
  \<^verbatim>\<open>
  new_ckpt = {}
  for k, v in ckpt.items():
      ...
      new_ckpt[new_k] = v
  \<close>
\<close>

fun remap_loop :: "'a checkpoint \<Rightarrow> 'a checkpoint \<Rightarrow> 'a checkpoint" where
  "remap_loop new_ckpt [] = new_ckpt"
| "remap_loop new_ckpt ((k, v) # items) =
     remap_loop (AList.update (remap_key k v) v new_ckpt) items"

definition remap_checkpoint :: "'a checkpoint \<Rightarrow> 'a checkpoint" where
  "remap_checkpoint ckpt = remap_loop [] ckpt"

section \<open>The loss module\<close>

text \<open>
  \<^verbatim>\<open>
  def _loss_function(self, **kwargs):
      return self._criterion(*(kwargs.values()))
  \<close>
  The keyword arguments arrive as a dictionary in the order the caller wrote them;
  their values are passed on by position. The criterion is the library's loss and is a
  parameter here: it receives the list of positional arguments.
\<close>

definition loss_function :: "('v list \<Rightarrow> 'r) \<Rightarrow> (string \<times> 'v) list \<Rightarrow> 'r" where
  "loss_function criterion kwargs = criterion (map snd kwargs)"

section \<open>The export script\<close>

subsection \<open>Values, errors and the configuration document\<close>

text \<open>
  Exceptions are values. \<open>ValueError\<close> carries its message and \<open>KeyError\<close> the key that
  was missing; \<open>External\<close> stands for whatever a library call raises (a file that
  cannot be opened, a checkpoint that does not fit, a failed export).
\<close>

datatype error = ValueError string | KeyError string | TypeError | External string

text \<open>
  The parsed configuration document: null, integers, strings, sequences and mappings with string
  keys, which is what the script looks at.
\<close>

datatype yaml = YNull | YInt int | YStr string | YSeq "yaml list" | YMap "(string \<times> yaml) list"

text \<open>\<^verbatim>\<open>d[key]\<close> with a string key: only a mapping can be subscripted this way.\<close>

fun subscript :: "yaml \<Rightarrow> string \<Rightarrow> error + yaml" where
  "subscript (YMap kvs) key =
     (case map_of kvs key of Some v \<Rightarrow> Inr v | None \<Rightarrow> Inl (KeyError key))"
| "subscript _ key = Inl TypeError"

text \<open>\<^verbatim>\<open>key in d\<close>: a key of a mapping, an element of a sequence, a part of a string.\<close>

fun py_in :: "string \<Rightarrow> yaml \<Rightarrow> error + bool" where
  "py_in key (YMap kvs) = Inr (key \<in> set (map fst kvs))"
| "py_in key (YSeq xs) = Inr (YStr key \<in> set xs)"
| "py_in key (YStr s) = Inr (contains key s)"
| "py_in key _ = Inl TypeError"

fun py_len :: "yaml \<Rightarrow> error + nat" where
  "py_len (YSeq xs) = Inr (length xs)"
| "py_len (YStr s) = Inr (length s)"
| "py_len (YMap kvs) = Inr (length kvs)"
| "py_len _ = Inl TypeError"

text \<open>\<^verbatim>\<open>f(**d)\<close>: only a mapping can be unpacked into keyword arguments.\<close>

fun keyword_arguments :: "yaml \<Rightarrow> error + (string \<times> yaml) list" where
  "keyword_arguments (YMap kvs) = Inr kvs"
| "keyword_arguments _ = Inl TypeError"

definition bind_err :: "error + 'a \<Rightarrow> ('a \<Rightarrow> error + 'b) \<Rightarrow> error + 'b" where
  "bind_err r f = (case r of Inl e \<Rightarrow> Inl e | Inr x \<Rightarrow> f x)"

subsection \<open>Library modules, calls and the world\<close>

text \<open>
  The three library classes the script instantiates, with their constructor arguments.
  Their weights play no part in what follows.
\<close>

datatype module =
    JasperEncoder yaml
  | JasperDecoderForCTC yaml yaml yaml
  | JasperDecoderForClassification yaml nat

text \<open>The calls the script makes into its libraries and the operating system.\<close>

datatype event =
    ReadConfig string
  | NewFactory
  | Construct module
  | TorchLoad string
  | LoadStateDict module "real checkpoint"
  | RestoreFrom module string
  | MakeDirs string
  | Export module string "real tensor"

text \<open>
  The world is the set of paths that exist (\<^verbatim>\<open>os.path.exists\<close>) and the calls made so
  far, each with the paths that existed when it was made.
\<close>

record world =
  files :: "string set"
  trace :: "(string set \<times> event) list"

text \<open>
  What the libraries answer is not decided by the script: it is the environment of a
  run. Every call may raise.
\<close>

record env =
  load_config :: "string \<Rightarrow> error + yaml"
  new_factory :: "error + unit"
  construct :: "module \<Rightarrow> error + unit"
  torch_load :: "string \<Rightarrow> error + real checkpoint"
  load_state_dict :: "module \<Rightarrow> real checkpoint \<Rightarrow> error + unit"
  restore_from :: "module \<Rightarrow> string \<Rightarrow> error + unit"
  makedirs :: "string \<Rightarrow> error + unit"
  cuda :: "error + unit"
  deployment_export :: "module \<Rightarrow> string \<Rightarrow> real tensor \<Rightarrow> error + unit"

type_synonym 'a run = "world \<Rightarrow> (error + 'a) \<times> world"

definition and_then :: "'a run \<Rightarrow> ('a \<Rightarrow> 'b run) \<Rightarrow> 'b run" where
  "and_then m f w = (case m w of (Inl e, w') \<Rightarrow> (Inl e, w') | (Inr x, w') \<Rightarrow> f x w')"

definition lift :: "error + 'a \<Rightarrow> 'a run" where
  "lift r w = (r, w)"

definition call :: "event \<Rightarrow> error + 'a \<Rightarrow> 'a run" where
  "call ev outcome w = (outcome, w\<lparr>trace := trace w @ [(files w, ev)]\<rparr>)"

subsection \<open>Paths and directories\<close>

text \<open>
  \<^verbatim>\<open>os.path.split\<close> on POSIX: cut after the last slash; strip the trailing slashes of
  the head unless it consists of slashes only.
\<close>

definition path_split :: "string \<Rightarrow> string \<times> string" where
  "path_split p =
     (let i = length p - length (takeWhile (\<lambda>c. c \<noteq> CHR ''/'') (rev p));
          head = take i p;
          tail = drop i p
      in (if head \<noteq> [] \<and> head \<noteq> replicate (length head) (CHR ''/'')
          then rev (dropWhile (\<lambda>c. c = CHR ''/'') (rev head)) else head, tail))"

text \<open>
  \<^verbatim>\<open>os.makedirs(d)\<close> creates \<open>d\<close> and the intermediate directories on the way to it: the
  prefixes of \<open>d\<close> that end before a slash.
\<close>

definition dir_prefixes :: "string \<Rightarrow> string list" where
  "dir_prefixes d = map (\<lambda>i. take i d) (filter (\<lambda>i. d ! i = CHR ''/'') [1..<length d])"

definition make_dirs :: "env \<Rightarrow> string \<Rightarrow> unit run" where
  "make_dirs env d =
     and_then (call (MakeDirs d) (makedirs env d))
       (\<lambda>_ w. (Inr (), w\<lparr>files := files w \<union> set (dir_prefixes d) \<union> {d}\<rparr>))"

text \<open>
  \<^verbatim>\<open>
  base_export_dir, export_fn = os.path.split(path)
  if base_export_dir and not os.path.exists(base_export_dir):
      os.makedirs(base_export_dir)
  \<close>
\<close>

definition ensure_export_dir :: "env \<Rightarrow> string \<Rightarrow> unit run" where
  "ensure_export_dir env path w =
     (let base_export_dir = fst (path_split path)
      in if base_export_dir \<noteq> [] \<and> base_export_dir \<notin> files w
         then make_dirs env base_export_dir w
         else (Inr (), w))"

subsection \<open>Dummy inputs\<close>

text \<open>
  \<^verbatim>\<open>torch.zeros(d1, d2, d3, dtype=torch.float, device="cuda:0")\<close>: every size is an
  integer and none is negative, the device has to be there, and the result is filled
  with zeros.
\<close>

fun as_int :: "yaml \<Rightarrow> error + int" where
  "as_int (YInt n) = Inr n"
| "as_int _ = Inl TypeError"

definition zero_tensor :: "nat list \<Rightarrow> real tensor" where
  "zero_tensor dims = Tensor dims (replicate (prod_list dims) 0)"

definition zeros :: "env \<Rightarrow> int list \<Rightarrow> error + real tensor" where
  "zeros env dims =
     (if list_ex (\<lambda>d. d < 0) dims then Inl (External ''RuntimeError'')
      else bind_err (cuda env) (\<lambda>_. Inr (zero_tensor (map nat dims))))"

subsection \<open>The stages of \<open>main\<close>\<close>

record args =
  config_file :: string
  nn_encoder :: string
  nn_decoder :: string
  nn_onnx_encoder :: string
  nn_onnx_decoder :: string
  pre_v09_model :: bool
  batch_size :: int
  time_steps :: int
  decoder_type :: string

text \<open>
  Lines 54 to 70: load the configuration, read the decoder's parameters and its
  \<open>feat_in\<close>, create the factory, construct the encoder from the encoder's parameters
  as keyword arguments. The result is the parsed
  document, the decoder's parameters, the decoder's feature count and the encoder.
\<close>

definition num_encoder_input_features :: int where
  "num_encoder_input_features = 64"

definition decoder_params_of :: "yaml \<Rightarrow> error + yaml" where
  "decoder_params_of jasper_model_definition =
     bind_err (bind_err (subscript jasper_model_definition ''init_params'')
       (\<lambda>d. subscript d ''decoder_params'')) (\<lambda>d. subscript d ''init_params'')"

definition encoder_params_of :: "yaml \<Rightarrow> error + yaml" where
  "encoder_params_of jasper_model_definition =
     bind_err (bind_err (subscript jasper_model_definition ''init_params'')
       (\<lambda>d. subscript d ''encoder_params'')) (\<lambda>d. subscript d ''init_params'')"

definition init_encoder :: "env \<Rightarrow> args \<Rightarrow> (yaml \<times> yaml \<times> yaml \<times> module) run" where
  "init_encoder env a =
     and_then (call (ReadConfig (config_file a)) (load_config env (config_file a)))
       (\<lambda>jasper_model_definition.
     and_then (lift (decoder_params_of jasper_model_definition))
       (\<lambda>decoder_params.
     and_then (lift (subscript decoder_params ''feat_in''))
       (\<lambda>num_decoder_input_features.
     and_then (call NewFactory (new_factory env))
       (\<lambda>nf.
     and_then (lift (encoder_params_of jasper_model_definition))
       (\<lambda>encoder_params.
     and_then (lift (keyword_arguments encoder_params))
       (\<lambda>_.
     and_then (call (Construct (JasperEncoder encoder_params))
                 (construct env (JasperEncoder encoder_params)))
       (\<lambda>_. lift (Inr (jasper_model_definition, decoder_params, num_decoder_input_features,
                 JasperEncoder encoder_params)))))))))"

text \<open>
  Lines 72 to 88: construct the decoder the decoder type asks for. The two messages
  are those of the script; the first one ends with the word \<open>labels\<close> in single quotes.
\<close>

definition labels_message :: string where
  "labels_message =
     ''List of class labels must be defined in model config file with key ''
     @ [CHR 0x27] @ ''labels'' @ [CHR 0x27]"

definition decoder_type_message :: string where
  "decoder_type_message = ''`decoder_type` must be one of ['ctc', 'classification']''"

definition init_decoder :: "env \<Rightarrow> args \<Rightarrow> yaml \<Rightarrow> yaml \<Rightarrow> yaml \<Rightarrow> module run" where
  "init_decoder env a jasper_model_definition decoder_params num_decoder_input_features =
     (if decoder_type a = ''ctc'' then
        and_then (lift (subscript decoder_params ''num_classes'')) (\<lambda>num_classes.
        and_then (lift (subscript decoder_params ''vocabulary'')) (\<lambda>vocabulary.
        and_then (call (Construct (JasperDecoderForCTC num_decoder_input_features num_classes vocabulary))
                   (construct env (JasperDecoderForCTC num_decoder_input_features num_classes vocabulary)))
          (\<lambda>_. lift (Inr (JasperDecoderForCTC num_decoder_input_features num_classes vocabulary)))))
      else if decoder_type a = ''classification'' then
        and_then (lift (py_in ''labels'' jasper_model_definition)) (\<lambda>has_labels.
        and_then (if has_labels
                  then lift (bind_err (subscript jasper_model_definition ''labels'') py_len)
                  else lift (Inl (ValueError labels_message)))
          (\<lambda>num_classes.
        and_then (call (Construct (JasperDecoderForClassification num_decoder_input_features num_classes))
                   (construct env (JasperDecoderForClassification num_decoder_input_features num_classes)))
          (\<lambda>_. lift (Inr (JasperDecoderForClassification num_decoder_input_features num_classes)))))
      else lift (Inl (ValueError decoder_type_message)))"

text \<open>Lines 92 to 105: load the encoder's weights, remapped for an old checkpoint, then the decoder's.\<close>

definition load_checkpoints :: "env \<Rightarrow> args \<Rightarrow> module \<Rightarrow> module \<Rightarrow> unit run" where
  "load_checkpoints env a jasper_encoder jasper_decoder =
     and_then
       (if pre_v09_model a then
          and_then (call (TorchLoad (nn_encoder a)) (torch_load env (nn_encoder a))) (\<lambda>ckpt.
            call (LoadStateDict jasper_encoder (remap_checkpoint ckpt))
              (load_state_dict env jasper_encoder (remap_checkpoint ckpt)))
        else call (RestoreFrom jasper_encoder (nn_encoder a))
               (restore_from env jasper_encoder (nn_encoder a)))
       (\<lambda>_. call (RestoreFrom jasper_decoder (nn_decoder a))
               (restore_from env jasper_decoder (nn_decoder a)))"

text \<open>Lines 107 to 114: create the export directories if they do not exist.\<close>

definition create_export_dirs :: "env \<Rightarrow> args \<Rightarrow> unit run" where
  "create_export_dirs env a =
     and_then (ensure_export_dir env (nn_onnx_encoder a))
       (\<lambda>_. ensure_export_dir env (nn_onnx_decoder a))"

text \<open>
  Lines 116 to 131: export the encoder, then the decoder, each with its dummy input.
  A successful export leaves its file behind.
\<close>

definition export_module :: "env \<Rightarrow> module \<Rightarrow> string \<Rightarrow> real tensor \<Rightarrow> unit run" where
  "export_module env m path dummy =
     and_then (call (Export m path dummy) (deployment_export env m path dummy))
       (\<lambda>_ w. (Inr (), w\<lparr>files := files w \<union> {path}\<rparr>))"

definition export_models :: "env \<Rightarrow> args \<Rightarrow> yaml \<Rightarrow> module \<Rightarrow> module \<Rightarrow> unit run" where
  "export_models env a num_decoder_input_features jasper_encoder jasper_decoder =
     and_then (lift (zeros env [batch_size a, num_encoder_input_features, time_steps a]))
       (\<lambda>encoder_dummy.
     and_then (export_module env jasper_encoder (nn_onnx_encoder a) encoder_dummy)
       (\<lambda>_.
     and_then (lift (bind_err (as_int num_decoder_input_features)
                 (\<lambda>n. zeros env [batch_size a, n, time_steps a div 2])))
       (\<lambda>decoder_dummy.
     export_module env jasper_decoder (nn_onnx_decoder a) decoder_dummy)))"

definition main :: "env \<Rightarrow> args \<Rightarrow> unit run" where
  "main env a =
     and_then (init_encoder env a)
       (\<lambda>(jasper_model_definition, decoder_params, num_decoder_input_features, jasper_encoder).
     and_then (init_decoder env a jasper_model_definition decoder_params num_decoder_input_features)
       (\<lambda>jasper_decoder.
     and_then (load_checkpoints env a jasper_encoder jasper_decoder)
       (\<lambda>_.
     and_then (create_export_dirs env a)
       (\<lambda>_.
     export_models env a num_decoder_input_features jasper_encoder jasper_decoder))))"



subsection \<open>Kinds of calls\<close>

text \<open>Reading a checkpoint file, or loading weights into a module.\<close>

fun reads_checkpoint :: "event \<Rightarrow> bool" where
  "reads_checkpoint (TorchLoad _) = True"
| "reads_checkpoint (LoadStateDict _ _) = True"
| "reads_checkpoint (RestoreFrom _ _) = True"
| "reads_checkpoint _ = False"


fun is_export :: "event \<Rightarrow> bool" where
  "is_export (Export _ _ _) = True"
| "is_export _ = False"

subsection \<open>A sample run\<close>

text \<open>
  A small configuration with an encoder block and a CTC decoder block and no \<open>labels\<close>
  entry, an environment in which the configuration file parses to a given document
  and every library call succeeds, and the arguments of a run that writes into two
  directories that do not exist yet.
\<close>

definition sample_config :: yaml where
  "sample_config =
     YMap [(''init_params'', YMap [
       (''encoder_params'', YMap [(''init_params'', YMap [(''feat_in'', YInt 64)])]),
       (''decoder_params'', YMap [(''init_params'', YMap [
          (''feat_in'', YInt 1024), (''num_classes'', YInt 2),
          (''vocabulary'', YSeq [YStr ''a'', YStr ''b''])])])])]"

definition sample_env :: "yaml \<Rightarrow> env" where
  "sample_env document =
     \<lparr>load_config = (\<lambda>_. Inr document), new_factory = Inr (), construct = (\<lambda>_. Inr ()),
      torch_load = (\<lambda>_. Inr []), load_state_dict = (\<lambda>_ _. Inr ()),
      restore_from = (\<lambda>_ _. Inr ()), makedirs = (\<lambda>_. Inr ()), cuda = Inr (),
      deployment_export = (\<lambda>_ _ _. Inr ())\<rparr>"

definition sample_args :: "string \<Rightarrow> args" where
  "sample_args kind =
     \<lparr>config_file = ''jasper.yaml'', nn_encoder = ''enc.pt'', nn_decoder = ''dec.pt'',
      nn_onnx_encoder = ''out/e/enc.onnx'', nn_onnx_decoder = ''out/d/dec.onnx'',
      pre_v09_model = False, batch_size = 1, time_steps = 5, decoder_type = kind\<rparr>"

definition fresh_world :: world where
  "fresh_world = \<lparr>files = {}, trace = []\<rparr>"

section \<open>Properties of the loss module\<close>

text \<open>
  C8. The loss function hands the keyword-argument values to the criterion in the
  order they were written and never looks at their names: with predictions first the
  call is \<open>criterion(predictions, targets)\<close>, with targets first the operands are
  swapped, and any two names give the call that their order gives.
\<close>

theorem loss_function_positional:
  "loss_function criterion [(''predictions'', p), (''targets'', t)] = criterion [p, t]
   \<and> loss_function criterion [(''targets'', t), (''predictions'', p)] = criterion [t, p]
   \<and> loss_function criterion [(n1, a), (n2, b)] = criterion [a, b]"
  by (simp add: loss_function_def)

section \<open>Properties of the key remapping\<close>

subsection \<open>Replacement in a string\<close>

lemma str_replace_Nil: "old \<noteq> [] \<Longrightarrow> str_replace old new [] = []"
  by (simp add: str_replace.simps)

lemma str_replace_match:
  "old \<noteq> [] \<Longrightarrow> prefix old s \<Longrightarrow>
   str_replace old new s = new @ str_replace old new (drop (length old) s)"
  by (subst str_replace.simps) auto

lemma str_replace_skip:
  "old \<noteq> [] \<Longrightarrow> \<not> prefix old (c # cs) \<Longrightarrow>
   str_replace old new (c # cs) = c # str_replace old new cs"
  by (subst str_replace.simps) simp

lemma contains_sublist: "contains sub s \<longleftrightarrow> sublist sub s"
  by (induction s) (simp_all add: sublist_Cons_right)

lemma str_replace_append:
  assumes "old \<noteq> []"
    and "\<And>a b. old = a @ b \<Longrightarrow> a \<noteq> [] \<Longrightarrow> b \<noteq> [] \<Longrightarrow> suffix a p \<Longrightarrow> \<not> prefix b t"
  shows "str_replace old new (p @ t) = str_replace old new p @ str_replace old new t"
  using assms
proof (induction old new p rule: str_replace.induct)
  case (1 old new s)
  show ?case
  proof (cases "s = []")
    case True
    then show ?thesis using "1.prems"(1) by (simp add: str_replace_Nil)
  next
    case ne: False
    show ?thesis
    proof (cases "prefix old s")
      case True
      then have len: "length old \<le> length s" by (rule prefix_length_le)
      have pre: "prefix old (s @ t)" using True by (rule prefix_prefix)
      have nostr: "\<And>a b. old = a @ b \<Longrightarrow> a \<noteq> [] \<Longrightarrow> b \<noteq> [] \<Longrightarrow>
          suffix a (drop (length old) s) \<Longrightarrow> \<not> prefix b t"
        using "1.prems"(2) suffix_drop suffix_order.trans by blast
      have ih: "str_replace old new (drop (length old) s @ t) =
          str_replace old new (drop (length old) s) @ str_replace old new t"
        using "1.IH"(1) [OF "1.prems"(1) ne True "1.prems"(1)] nostr by blast
      show ?thesis
        using len ih "1.prems"(1) True pre
        by (simp add: str_replace_match)
    next
      case False
      have npre: "\<not> prefix old (s @ t)"
      proof
        assume "prefix old (s @ t)"
        then obtain us where us: "old = s @ us" "prefix us t"
          using False by (auto simp: prefix_append)
        have "us \<noteq> []" using us False by auto
        then show False using "1.prems"(2) [OF us(1) ne] us(2) by simp
      qed
      obtain c cs where s: "s = c # cs" using ne by (cases s) auto
      have nostr: "\<And>a b. old = a @ b \<Longrightarrow> a \<noteq> [] \<Longrightarrow> b \<noteq> [] \<Longrightarrow>
          suffix a (tl s) \<Longrightarrow> \<not> prefix b t"
        using "1.prems"(2) suffix_tl suffix_order.trans by blast
      have ih: "str_replace old new (tl s @ t) =
          str_replace old new (tl s) @ str_replace old new t"
        using "1.IH"(2) [OF "1.prems"(1) ne False "1.prems"(1)] nostr by blast
      show ?thesis using ih npre False "1.prems"(1) unfolding s
        by (simp add: str_replace_skip)
    qed
  qed
qed

lemma str_replace_at_char:
  assumes "c \<notin> set rest"
  shows "str_replace (c # rest) new (xs @ c # ys) =
         str_replace (c # rest) new xs @ str_replace (c # rest) new (c # ys)"
proof (rule str_replace_append)
  show "c # rest \<noteq> []" by simp
next
  fix a b
  assume ab: "c # rest = a @ b" "a \<noteq> []" "b \<noteq> []" "suffix a xs"
  show "\<not> prefix b (c # ys)"
  proof
    assume "prefix b (c # ys)"
    then have "hd b = c" using ab(3) by (cases b) auto
    then have "c \<in> set b" using ab(3) by (cases b) auto
    moreover have "set b \<subseteq> set rest" using ab(1,2) by (cases a) auto
    ultimately show False using assms by blast
  qed
qed

lemma conv_split:
  assumes "''.conv.'' = a @ b" "a \<noteq> []" "b \<noteq> []" "prefix b (CHR ''.'' # t)"
  shows "a = ''.conv''"
  using assms by (auto simp: Cons_eq_append_conv)

lemma str_replace_conv_occurrence:
  assumes "\<not> suffix ''.conv'' p"
  shows "str_replace ''.conv.'' ''.mconv.'' (p @ ''.conv.'' @ r) =
         str_replace ''.conv.'' ''.mconv.'' p @ ''.mconv.'' @ str_replace ''.conv.'' ''.mconv.'' r"
proof -
  have "str_replace ''.conv.'' ''.mconv.'' (p @ (''.conv.'' @ r)) =
        str_replace ''.conv.'' ''.mconv.'' p @ str_replace ''.conv.'' ''.mconv.'' (''.conv.'' @ r)"
  proof (rule str_replace_append)
    show "''.conv.'' \<noteq> []" by simp
  next
    fix a b
    assume ab: "''.conv.'' = a @ b" "a \<noteq> []" "b \<noteq> []" "suffix a p"
    show "\<not> prefix b (''.conv.'' @ r)"
    proof
      assume "prefix b (''.conv.'' @ r)"
      then have "a = ''.conv''" using conv_split [OF ab(1,2,3)] by simp
      then show False using ab(4) assms by simp
    qed
  qed
  then show ?thesis by (simp add: str_replace_match)
qed

lemma str_replace_contains_new:
  "old \<noteq> [] \<Longrightarrow> sublist old s \<Longrightarrow> sublist new (str_replace old new s)"
proof (induction old new s rule: str_replace.induct)
  case (1 old new s)
  show ?case
  proof (cases "s = []")
    case True
    then show ?thesis using "1.prems" by simp
  next
    case ne: False
    show ?thesis
    proof (cases "prefix old s")
      case True
      then show ?thesis using "1.prems"(1) by (simp add: str_replace_match)
    next
      case False
      obtain c cs where s: "s = c # cs" using ne by (cases s) auto
      have "sublist old cs" using "1.prems"(2) False unfolding s
        by (simp add: sublist_Cons_right)
      then have "sublist new (str_replace old new (tl s))"
        using "1.IH"(2) [OF "1.prems"(1) ne False "1.prems"(1)] s by simp
      then show ?thesis using False "1.prems"(1) unfolding s
        by (simp add: str_replace_skip sublist_Cons_right)
    qed
  qed
qed

lemma str_replace_absent:
  "old \<noteq> [] \<Longrightarrow> \<not> sublist old s \<Longrightarrow> str_replace old new s = s"
proof (induction s)
  case Nil
  then show ?case by (simp add: str_replace_Nil)
next
  case (Cons c cs)
  then show ?case by (simp add: str_replace_skip sublist_Cons_right)
qed

subsection \<open>The two replacements of the remapping\<close>

lemma conv_skip_char:
  "c \<noteq> CHR ''.'' \<Longrightarrow>
   str_replace ''.conv.'' ''.mconv.'' (c # cs) = c # str_replace ''.conv.'' ''.mconv.'' cs"
  by (simp add: str_replace_skip)

lemma conv_dot_first:
  "\<exists>t. str_replace ''.conv.'' ''.mconv.'' (CHR ''.'' # cs) = CHR ''.'' # t"
  by (cases "prefix ''.conv.'' (CHR ''.'' # cs)") (simp_all add: str_replace_match str_replace_skip)

lemma conv_prefix_back:
  "CHR ''.'' \<notin> set w \<Longrightarrow> prefix (w @ ''.'') (str_replace ''.conv.'' ''.mconv.'' r) \<Longrightarrow>
   prefix (w @ ''.'') r"
proof (induction w arbitrary: r)
  case Nil
  show ?case
  proof (cases r)
    case Nil
    then show ?thesis using Nil.prems by (simp add: str_replace_Nil)
  next
    case (Cons y ys)
    show ?thesis
    proof (cases "y = CHR ''.''")
      case True
      then show ?thesis using Cons by simp
    next
      case False
      then show ?thesis using Nil.prems Cons by (simp add: conv_skip_char)
    qed
  qed
next
  case (Cons x w)
  show ?case
  proof (cases r)
    case Nil
    then show ?thesis using Cons.prems by (simp add: str_replace_Nil)
  next
    case rc: (Cons y ys)
    show ?thesis
    proof (cases "y = CHR ''.''")
      case True
      obtain t where "str_replace ''.conv.'' ''.mconv.'' r = CHR ''.'' # t"
        using conv_dot_first rc True by blast
      then show ?thesis using Cons.prems by auto
    next
      case False
      then have "prefix (x # w @ ''.'') (y # str_replace ''.conv.'' ''.mconv.'' ys)"
        using Cons.prems(2) rc by (simp add: conv_skip_char)
      then have "x = y" "prefix (w @ ''.'') (str_replace ''.conv.'' ''.mconv.'' ys)" by auto
      then show ?thesis using Cons.IH [of ys] Cons.prems(1) rc by simp
    qed
  qed
qed

lemma conv_all_replaced:
  "\<not> sublist ''.conv.conv.'' k \<Longrightarrow> \<not> sublist ''.conv.'' (str_replace ''.conv.'' ''.mconv.'' k)"
proof (induction "''.conv.''" "''.mconv.''" k rule: str_replace.induct)
  case (1 s)
  show ?case
  proof (cases "s = []")
    case True
    then show ?thesis by (simp add: str_replace_Nil)
  next
    case ne: False
    show ?thesis
    proof (cases "prefix ''.conv.'' s")
      case True
      then obtain r where s: "s = ''.conv.'' @ r" by (auto simp: prefix_def)
      have r_sub: "\<not> sublist ''.conv.conv.'' r"
        using "1.prems" unfolding s by (simp add: sublist_Cons_right)
      have ih: "\<not> sublist ''.conv.'' (str_replace ''.conv.'' ''.mconv.'' r)"
        using "1.hyps"(1) [OF _ ne True] r_sub s by simp
      have "\<not> prefix ''conv.'' r"
        using "1.prems" unfolding s by (auto simp: sublist_Cons_right)
      then have "\<not> prefix (''conv'' @ ''.'') (str_replace ''.conv.'' ''.mconv.'' r)"
        using conv_prefix_back [of "''conv''" r] by auto
      then show ?thesis using ih unfolding s
        by (simp add: str_replace_match sublist_Cons_right)
    next
      case False
      obtain c cs where s: "s = c # cs" using ne by (cases s) auto
      have cs_sub: "\<not> sublist ''.conv.conv.'' cs"
        using "1.prems" unfolding s by (simp add: sublist_Cons_right)
      have ih: "\<not> sublist ''.conv.'' (str_replace ''.conv.'' ''.mconv.'' cs)"
        using "1.hyps"(2) [OF _ ne False] cs_sub s by simp
      have "\<not> prefix ''.conv.'' (c # str_replace ''.conv.'' ''.mconv.'' cs)"
      proof
        assume a: "prefix ''.conv.'' (c # str_replace ''.conv.'' ''.mconv.'' cs)"
        then have c: "c = CHR ''.''" by auto
        have "prefix (''conv'' @ ''.'') (str_replace ''.conv.'' ''.mconv.'' cs)" using a by auto
        then have "prefix (''conv'' @ ''.'') cs" by (rule conv_prefix_back [rotated]) simp
        then show False using False c s by simp
      qed
      then show ?thesis using ih False unfolding s
        by (simp add: str_replace_skip sublist_Cons_right)
    qed
  qed
qed

lemma remap_conv_weight:
  assumes "\<not> suffix ''.conv'' p"
  shows "\<exists>a b. str_replace ''.weight'' ''.conv.weight''
            (str_replace ''.conv.'' ''.mconv.'' (p @ ''.conv.weight'' @ s)) =
          a @ ''.mconv.conv.weight'' @ b"
proof -
  let ?r1 = "str_replace ''.conv.'' ''.mconv.''"
  let ?r2 = "str_replace ''.weight'' ''.conv.weight''"
  have "?r1 (p @ ''.conv.'' @ (''weight'' @ s)) = ?r1 p @ ''.mconv.'' @ ?r1 (''weight'' @ s)"
    using assms by (rule str_replace_conv_occurrence)
  then have e1: "?r1 (p @ ''.conv.weight'' @ s) = (?r1 p @ ''.mconv'') @ CHR ''.'' # (''weight'' @ ?r1 s)"
    by (simp add: conv_skip_char)
  have e2: "?r2 ((?r1 p @ ''.mconv'') @ CHR ''.'' # (''weight'' @ ?r1 s)) =
        ?r2 (?r1 p @ ''.mconv'') @ ?r2 (CHR ''.'' # (''weight'' @ ?r1 s))"
    by (rule str_replace_at_char) simp
  have e3: "?r2 (?r1 p @ CHR ''.'' # ''mconv'') = ?r2 (?r1 p) @ ?r2 (CHR ''.'' # ''mconv'')"
    by (rule str_replace_at_char) simp
  have e4: "?r2 (CHR ''.'' # ''mconv'') = ''.mconv''"
    by (simp add: str_replace_skip str_replace_Nil)
  have e5: "?r2 (CHR ''.'' # (''weight'' @ ?r1 s)) = ''.conv.weight'' @ ?r2 (?r1 s)"
    by (simp add: str_replace_match)
  have "?r2 (?r1 (p @ ''.conv.weight'' @ s)) = ?r2 (?r1 p) @ ''.mconv.conv.weight'' @ ?r2 (?r1 s)"
    using e2 e3 e4 e5 unfolding e1 by simp
  then show ?thesis by blast
qed

subsection \<open>The remapped checkpoint\<close>

lemma update_fresh: "k \<notin> fst ` set al \<Longrightarrow> AList.update k v al = al @ [(k, v)]"
  by (induction al) auto

lemma set_update_subset: "set (AList.update k v al) \<subseteq> insert (k, v) (set al)"
  by (induction al) auto

lemma remap_loop_entries:
  "(k', v') \<in> set (remap_loop acc items) \<Longrightarrow>
   (k', v') \<in> set acc \<or> (\<exists>k. (k, v') \<in> set items \<and> k' = remap_key k v')"
proof (induction items arbitrary: acc)
  case Nil
  then show ?case by simp
next
  case (Cons kv items)
  obtain k v where kv: "kv = (k, v)" by (cases kv)
  from Cons.prems have "(k', v') \<in> set (remap_loop (AList.update (remap_key k v) v acc) items)"
    by (simp add: kv)
  then consider "(k', v') \<in> set (AList.update (remap_key k v) v acc)"
    | "\<exists>k. (k, v') \<in> set items \<and> k' = remap_key k v'"
    using Cons.IH by blast
  then show ?case
  proof cases
    case 1
    then have "(k', v') = (remap_key k v, v) \<or> (k', v') \<in> set acc"
      using set_update_subset by fastforce
    then show ?thesis using kv by auto
  next
    case 2
    then show ?thesis by auto
  qed
qed

lemma remap_loop_distinct:
  "distinct (map fst acc @ map (\<lambda>(k, v). remap_key k v) items) \<Longrightarrow>
   remap_loop acc items = acc @ map (\<lambda>(k, v). (remap_key k v, v)) items"
proof (induction items arbitrary: acc)
  case Nil
  then show ?case by simp
next
  case (Cons kv items)
  obtain k v where kv: "kv = (k, v)" by (cases kv)
  have fresh: "remap_key k v \<notin> fst ` set acc" using Cons.prems by (auto simp: kv)
  then have upd: "AList.update (remap_key k v) v acc = acc @ [(remap_key k v, v)]"
    by (rule update_fresh)
  have "distinct (map fst (acc @ [(remap_key k v, v)]) @ map (\<lambda>(k, v). remap_key k v) items)"
    using Cons.prems by (auto simp: kv)
  then have "remap_loop (acc @ [(remap_key k v, v)]) items =
      (acc @ [(remap_key k v, v)]) @ map (\<lambda>(k, v). (remap_key k v, v)) items"
    by (rule Cons.IH)
  then show ?case by (simp add: kv upd)
qed

lemma map_of_renamed:
  "distinct (map (\<lambda>(k, v). remap_key k v) items) \<Longrightarrow> (k, v) \<in> set items \<Longrightarrow>
   map_of (map (\<lambda>(k, v). (remap_key k v, v)) items) (remap_key k v) = Some v"
proof -
  assume d: "distinct (map (\<lambda>(k, v). remap_key k v) items)" and m: "(k, v) \<in> set items"
  have e: "map fst (map (\<lambda>(k, v). (remap_key k v, v)) items) = map (\<lambda>(k, v). remap_key k v) items"
    by (induction items) auto
  have "distinct (map fst (map (\<lambda>(k, v). (remap_key k v, v)) items))"
    unfolding e by (rule d)
  moreover have "(remap_key k v, v) \<in> set (map (\<lambda>(k, v). (remap_key k v, v)) items)"
    using m by force
  ultimately show ?thesis by (rule map_of_is_SomeI)
qed

lemmas str_eval = str_replace_match str_replace_skip str_replace_Nil remap_key_def rank_def

text \<open>
  C10, amended. The remapping never modifies a tensor: every entry of the remapped
  checkpoint is a tensor of the original checkpoint under its renamed key. When no
  two entries are renamed to the same key, the remapped checkpoint has the same
  entries in the same order with only the keys changed, and looking up the renamed
  key of an original entry gives the identical tensor.
\<close>

theorem remap_checkpoint_values:
  "(\<forall>(k', v') \<in> set (remap_checkpoint ckpt). \<exists>k. (k, v') \<in> set ckpt \<and> k' = remap_key k v')
   \<and> (distinct (map (\<lambda>(k, v). remap_key k v) ckpt) \<longrightarrow>
        remap_checkpoint ckpt = map (\<lambda>(k, v). (remap_key k v, v)) ckpt
        \<and> (\<forall>(k, v) \<in> set ckpt. map_of (remap_checkpoint ckpt) (remap_key k v) = Some v))"
proof (intro conjI impI)
  show "\<forall>(k', v') \<in> set (remap_checkpoint ckpt). \<exists>k. (k, v') \<in> set ckpt \<and> k' = remap_key k v'"
    using remap_loop_entries [of _ _ "[]" ckpt] by (auto simp: remap_checkpoint_def)
next
  assume d: "distinct (map (\<lambda>(k, v). remap_key k v) ckpt)"
  then show eq: "remap_checkpoint ckpt = map (\<lambda>(k, v). (remap_key k v, v)) ckpt"
    using remap_loop_distinct [of "[]" ckpt] by (simp add: remap_checkpoint_def)
  show "\<forall>(k, v) \<in> set ckpt. map_of (remap_checkpoint ckpt) (remap_key k v) = Some v"
    unfolding eq using map_of_renamed [OF d] by auto
qed

text \<open>
  A checkpoint with two entries whose renamed keys differ.
\<close>

theorem remap_checkpoint_values_witness:
  "distinct (map (\<lambda>(k, v). remap_key k v)
      [(''enc.0.conv.weight'', Tensor [1, 1, 1] [0::int]), (''enc.0.conv.bias'', Tensor [1] [1])])
   \<and> remap_checkpoint
      [(''enc.0.conv.weight'', Tensor [1, 1, 1] [0::int]), (''enc.0.conv.bias'', Tensor [1] [1])]
     = [(''enc.0.mconv.conv.weight'', Tensor [1, 1, 1] [0]), (''enc.0.mconv.bias'', Tensor [1] [1])]
   \<and> map_of (remap_checkpoint
      [(''enc.0.conv.weight'', Tensor [1, 1, 1] [0::int]), (''enc.0.conv.bias'', Tensor [1] [1])])
        (remap_key ''enc.0.conv.bias'' (Tensor [1] [1::int])) = Some (Tensor [1] [1])"
proof -
  let ?c = "[(''enc.0.conv.weight'', Tensor [1, 1, 1] [0::int]), (''enc.0.conv.bias'', Tensor [1] [1])]"
  have d: "distinct (map (\<lambda>(k, v). remap_key k v) ?c)"
    by (simp add: str_eval)
  have m: "map (\<lambda>(k, v). (remap_key k v, v)) ?c =
      [(''enc.0.mconv.conv.weight'', Tensor [1, 1, 1] [0]), (''enc.0.mconv.bias'', Tensor [1] [1])]"
    by (simp add: str_eval)
  from remap_checkpoint_values [of ?c] d
  have e: "remap_checkpoint ?c = map (\<lambda>(k, v). (remap_key k v, v)) ?c"
    and l: "\<forall>(k, v) \<in> set ?c. map_of (remap_checkpoint ?c) (remap_key k v) = Some v"
    by blast+
  have "map_of (remap_checkpoint ?c) (remap_key ''enc.0.conv.bias'' (Tensor [1] [1::int]))
      = Some (Tensor [1] [1])"
    using l by simp
  then show ?thesis using d e m by simp
qed

text \<open>
  The keys \<open>a.conv.b\<close> and \<open>a.mconv.b\<close> are both renamed to \<open>a.mconv.b\<close>: the later entry
  overwrites the earlier one, and the renamed key of the first entry holds the tensor
  of the second.
\<close>

theorem remap_checkpoint_collision:
  "distinct (map fst [(''a.conv.b'', Tensor [1] [0::int]), (''a.mconv.b'', Tensor [1] [1])])
   \<and> (''a.conv.b'', Tensor [1] [0::int]) \<in> set [(''a.conv.b'', Tensor [1] [0::int]), (''a.mconv.b'', Tensor [1] [1])]
   \<and> map_of (remap_checkpoint [(''a.conv.b'', Tensor [1] [0::int]), (''a.mconv.b'', Tensor [1] [1])])
        (remap_key ''a.conv.b'' (Tensor [1] [0::int])) = Some (Tensor [1] [1])
   \<and> Tensor [1] [1] \<noteq> Tensor [1] [0::int]"
  by (simp add: str_eval remap_checkpoint_def)

subsection \<open>Remapped keys\<close>

text \<open>
  C1, amended. For a checkpoint entry \<open>(k, v)\<close>: if \<open>v\<close> has rank 3 and \<open>k\<close> contains
  \<open>.conv.weight\<close> at a place that is not directly preceded by \<open>.conv\<close> (that is,
  \<open>k = p + '.conv.weight' + s\<close> where \<open>p\<close> does not end in \<open>.conv\<close>), the remapped key
  contains \<open>.mconv.conv.weight\<close>. If \<open>v\<close> does not have rank 3 and \<open>k\<close> contains
  \<open>.conv.\<close>, the remapped key contains \<open>.mconv.\<close> and is the result of the first
  replacement alone: nothing is put in front of \<open>.weight\<close>.
\<close>

theorem remap_key_conv_weight:
  "(rank v = 3 \<and> \<not> suffix ''.conv'' p \<longrightarrow>
      contains ''.mconv.conv.weight'' (remap_key (p @ ''.conv.weight'' @ s) v))
   \<and> (rank v \<noteq> 3 \<and> contains ''.conv.'' k \<longrightarrow>
      contains ''.mconv.'' (remap_key k v)
      \<and> remap_key k v = str_replace ''.conv.'' ''.mconv.'' k)"
proof (intro conjI impI)
  assume a: "rank v = 3 \<and> \<not> suffix ''.conv'' p"
  then obtain a b where "str_replace ''.weight'' ''.conv.weight''
            (str_replace ''.conv.'' ''.mconv.'' (p @ ''.conv.weight'' @ s)) =
          a @ ''.mconv.conv.weight'' @ b"
    using remap_conv_weight by blast
  then have "sublist ''.mconv.conv.weight'' (remap_key (p @ ''.conv.weight'' @ s) v)"
    using a by (simp add: remap_key_def sublist_def) blast
  then show "contains ''.mconv.conv.weight'' (remap_key (p @ ''.conv.weight'' @ s) v)"
    by (simp add: contains_sublist)
next
  assume a: "rank v \<noteq> 3 \<and> contains ''.conv.'' k"
  then show "remap_key k v = str_replace ''.conv.'' ''.mconv.'' k"
    by (simp add: remap_key_def)
  have "sublist ''.mconv.'' (str_replace ''.conv.'' ''.mconv.'' k)"
    using a by (intro str_replace_contains_new) (simp_all add: contains_sublist)
  then show "contains ''.mconv.'' (remap_key k v)"
    using a by (simp add: remap_key_def contains_sublist)
qed

text \<open>
  The two cases of the previous theorem at the keys \<open>enc.0.conv.weight\<close> (rank 3) and
  \<open>enc.0.conv.bias\<close> (rank 1).
\<close>

theorem remap_key_conv_weight_witness:
  "rank (Tensor [4, 2, 3] ([]::int list)) = 3 \<and> \<not> suffix ''.conv'' ''enc.0''
   \<and> contains ''.mconv.conv.weight'' (remap_key (''enc.0'' @ ''.conv.weight'' @ []) (Tensor [4, 2, 3] ([]::int list)))
   \<and> rank (Tensor [4] ([]::int list)) \<noteq> 3 \<and> contains ''.conv.'' ''enc.0.conv.bias''
   \<and> contains ''.mconv.'' (remap_key ''enc.0.conv.bias'' (Tensor [4] ([]::int list)))
   \<and> remap_key ''enc.0.conv.bias'' (Tensor [4] ([]::int list)) = ''enc.0.mconv.bias''"
proof -
  have h1: "rank (Tensor [4, 2, 3] ([]::int list)) = 3 \<and> \<not> suffix ''.conv'' ''enc.0''"
    by (simp add: rank_def suffix_Cons)
  have h2: "rank (Tensor [4] ([]::int list)) \<noteq> 3 \<and> contains ''.conv.'' ''enc.0.conv.bias''"
    by (simp add: rank_def)
  have e: "str_replace ''.conv.'' ''.mconv.'' ''enc.0.conv.bias'' = ''enc.0.mconv.bias''"
    by (simp add: str_eval)
  show ?thesis
    using remap_key_conv_weight [where v = "Tensor [4, 2, 3] ([]::int list)" and p = "''enc.0''" and s = "[]"]
      remap_key_conv_weight [where v = "Tensor [4] ([]::int list)" and k = "''enc.0.conv.bias''"]
      h1 h2 e
    by simp
qed

text \<open>
  Without the condition on what precedes the occurrence the first case fails: in
  \<open>enc.conv.conv.weight\<close> the scan replaces the first \<open>.conv.\<close>, whose final dot is the
  first character of the second one, so the second is passed over and the key becomes
  \<open>enc.mconv.conv.conv.weight\<close>.
\<close>

theorem remap_key_conv_weight_overlap:
  "contains ''.conv.weight'' ''enc.conv.conv.weight''
   \<and> rank (Tensor [4, 2, 3] ([]::int list)) = 3
   \<and> remap_key ''enc.conv.conv.weight'' (Tensor [4, 2, 3] ([]::int list)) = ''enc.mconv.conv.conv.weight''
   \<and> \<not> contains ''.mconv.conv.weight'' (remap_key ''enc.conv.conv.weight'' (Tensor [4, 2, 3] ([]::int list)))"
  by (simp add: str_eval)

text \<open>
  C9, amended. For an entry whose tensor has rank 3 the replacement of \<open>.weight\<close> by
  \<open>.conv.weight\<close> is applied whatever the key is, also to a key without \<open>.conv.\<close>,
  where it is the only change. The replacement of \<open>.conv.\<close> by \<open>.mconv.\<close> is applied
  to every occurrence that is not directly preceded by \<open>.conv\<close> (the scan goes from
  the left and matches do not overlap), not to one segment only: around such an
  occurrence the key is rewritten piece by piece, and a key without \<open>.conv.conv.\<close>
  has no \<open>.conv.\<close> left after the first replacement.
\<close>

theorem remap_key_rank3_and_occurrences:
  "(rank v = 3 \<longrightarrow>
      remap_key k v = str_replace ''.weight'' ''.conv.weight'' (str_replace ''.conv.'' ''.mconv.'' k))
   \<and> (rank v = 3 \<and> \<not> contains ''.conv.'' k \<longrightarrow>
      remap_key k v = str_replace ''.weight'' ''.conv.weight'' k
      \<and> (contains ''.weight'' k \<longrightarrow> contains ''.conv.weight'' (remap_key k v)))
   \<and> (\<not> suffix ''.conv'' p \<longrightarrow>
      str_replace ''.conv.'' ''.mconv.'' (p @ ''.conv.'' @ r) =
      str_replace ''.conv.'' ''.mconv.'' p @ ''.mconv.'' @ str_replace ''.conv.'' ''.mconv.'' r)
   \<and> (\<not> contains ''.conv.conv.'' k \<longrightarrow>
      \<not> contains ''.conv.'' (str_replace ''.conv.'' ''.mconv.'' k)
      \<and> (rank v \<noteq> 3 \<longrightarrow> \<not> contains ''.conv.'' (remap_key k v)))"
proof (intro conjI impI)
  show "remap_key k v = str_replace ''.weight'' ''.conv.weight'' (str_replace ''.conv.'' ''.mconv.'' k)"
    if "rank v = 3"
    using that by (simp add: remap_key_def)
  show e: "remap_key k v = str_replace ''.weight'' ''.conv.weight'' k"
    if "rank v = 3 \<and> \<not> contains ''.conv.'' k"
    using that by (simp add: remap_key_def contains_sublist str_replace_absent)
  show "contains ''.conv.weight'' (remap_key k v)"
    if "rank v = 3 \<and> \<not> contains ''.conv.'' k" and "contains ''.weight'' k"
    using that e str_replace_contains_new [of "''.weight''" k "''.conv.weight''"]
    by (simp add: contains_sublist)
  show "str_replace ''.conv.'' ''.mconv.'' (p @ ''.conv.'' @ r) =
      str_replace ''.conv.'' ''.mconv.'' p @ ''.mconv.'' @ str_replace ''.conv.'' ''.mconv.'' r"
    if "\<not> suffix ''.conv'' p"
    using that by (rule str_replace_conv_occurrence)
  show n: "\<not> contains ''.conv.'' (str_replace ''.conv.'' ''.mconv.'' k)"
    if "\<not> contains ''.conv.conv.'' k"
    using that conv_all_replaced [of k] by (simp add: contains_sublist)
  show "\<not> contains ''.conv.'' (remap_key k v)"
    if "\<not> contains ''.conv.conv.'' k" and "rank v \<noteq> 3"
    using that n by (simp add: remap_key_def)
qed

text \<open>
  The cases of the previous theorem at the keys \<open>dec.weight\<close> (rank 3, no \<open>.conv.\<close>) and
  \<open>a.conv.b.conv.c\<close> (two occurrences).
\<close>

theorem remap_key_rank3_and_occurrences_witness:
  "rank (Tensor [4, 2, 3] ([]::int list)) = 3 \<and> \<not> contains ''.conv.'' ''dec.weight''
   \<and> contains ''.weight'' ''dec.weight''
   \<and> remap_key ''dec.weight'' (Tensor [4, 2, 3] ([]::int list)) = ''dec.conv.weight''
   \<and> contains ''.conv.weight'' (remap_key ''dec.weight'' (Tensor [4, 2, 3] ([]::int list)))
   \<and> \<not> suffix ''.conv'' ''a''
   \<and> str_replace ''.conv.'' ''.mconv.'' (''a'' @ ''.conv.'' @ ''b.conv.c'') = ''a.mconv.b.mconv.c''
   \<and> \<not> contains ''.conv.conv.'' ''a.conv.b.conv.c''
   \<and> rank (Tensor [4] ([]::int list)) \<noteq> 3
   \<and> \<not> contains ''.conv.'' (remap_key ''a.conv.b.conv.c'' (Tensor [4] ([]::int list)))"
proof -
  have h1: "rank (Tensor [4, 2, 3] ([]::int list)) = 3 \<and> \<not> contains ''.conv.'' ''dec.weight''"
    by (simp add: rank_def)
  have h2: "contains ''.weight'' ''dec.weight''" by simp
  have h3: "\<not> suffix ''.conv'' ''a''" by (simp add: suffix_Cons)
  have h4: "\<not> contains ''.conv.conv.'' ''a.conv.b.conv.c''" by simp
  have h5: "rank (Tensor [4] ([]::int list)) \<noteq> 3" by (simp add: rank_def)
  have e1: "str_replace ''.weight'' ''.conv.weight'' ''dec.weight'' = ''dec.conv.weight''"
    by (simp add: str_eval)
  have e2: "str_replace ''.conv.'' ''.mconv.'' ''a'' = ''a''"
    "str_replace ''.conv.'' ''.mconv.'' ''b.conv.c'' = ''b.mconv.c''"
    by (simp_all add: str_eval)
  note t1 = remap_key_rank3_and_occurrences
        [where v = "Tensor [4, 2, 3] ([]::int list)" and k = "''dec.weight''"
           and p = "''a''" and r = "''b.conv.c''"]
  note t2 = remap_key_rank3_and_occurrences
        [where v = "Tensor [4] ([]::int list)" and k = "''a.conv.b.conv.c''"]
  have "remap_key ''dec.weight'' (Tensor [4, 2, 3] ([]::int list)) =
      str_replace ''.weight'' ''.conv.weight'' ''dec.weight''"
    using t1 h1 by blast
  then have a: "remap_key ''dec.weight'' (Tensor [4, 2, 3] ([]::int list)) = ''dec.conv.weight''"
    unfolding e1 .
  have b: "contains ''.conv.weight'' (remap_key ''dec.weight'' (Tensor [4, 2, 3] ([]::int list)))"
    using t1 h1 h2 by blast
  have "str_replace ''.conv.'' ''.mconv.'' (''a'' @ ''.conv.'' @ ''b.conv.c'') =
      str_replace ''.conv.'' ''.mconv.'' ''a'' @ ''.mconv.'' @ str_replace ''.conv.'' ''.mconv.'' ''b.conv.c''"
    using t1 h3 by blast
  then have c: "str_replace ''.conv.'' ''.mconv.'' (''a'' @ ''.conv.'' @ ''b.conv.c'') = ''a.mconv.b.mconv.c''"
    unfolding e2 by simp
  have d: "\<not> contains ''.conv.'' (remap_key ''a.conv.b.conv.c'' (Tensor [4] ([]::int list)))"
    using t2 h4 h5 by blast
  show ?thesis using h1 h2 h3 h4 h5 a b c d by blast
qed

text \<open>
  An occurrence that overlaps the one before it is not replaced: \<open>enc.conv.conv.bias\<close>
  becomes \<open>enc.mconv.conv.bias\<close>, which still contains \<open>.conv.\<close>.
\<close>

theorem remap_key_overlapping_occurrence:
  "rank (Tensor [4] ([]::int list)) \<noteq> 3
   \<and> contains ''.conv.'' ''enc.conv.conv.bias''
   \<and> remap_key ''enc.conv.conv.bias'' (Tensor [4] ([]::int list)) = ''enc.mconv.conv.bias''
   \<and> contains ''.conv.'' (remap_key ''enc.conv.conv.bias'' (Tensor [4] ([]::int list)))"
  by (simp add: str_eval)

section \<open>Properties of the export script\<close>

subsection \<open>The stages\<close>


lemma init_encoder_world:
  assumes "init_encoder env a w = (r, w')"
  shows "files w' = files w
       \<and> (\<exists>evs. trace w' = trace w @ evs \<and> list_all (\<lambda>(f, ev). \<not> reads_checkpoint ev \<and> \<not> is_export ev) evs)"
  using assms
  by (auto simp: init_encoder_def and_then_def call_def lift_def split: prod.splits sum.splits)

lemma init_encoder_ok:
  assumes "init_encoder env a w = (Inr (jmd, dp, feat, enc), w')"
  shows "load_config env (config_file a) = Inr jmd \<and> decoder_params_of jmd = Inr dp
       \<and> subscript dp ''feat_in'' = Inr feat
       \<and> (\<exists>ep. encoder_params_of jmd = Inr ep \<and> enc = JasperEncoder ep)
       \<and> files w' = files w
       \<and> trace w' = trace w @ [(files w, ReadConfig (config_file a)), (files w, NewFactory),
            (files w, Construct enc)]"
  using assms
  by (auto simp: init_encoder_def and_then_def call_def lift_def split: prod.splits sum.splits)











subsection \<open>The decoder type\<close>

lemma filter_no_new:
  "list_all (\<lambda>x. \<not> P x) evs \<Longrightarrow> filter P (t @ evs) = filter P t"
  by (induction evs) (auto simp: list_all_iff)

lemma main_unknown_decoder_type:
  assumes "decoder_type a \<noteq> ''ctc''" "decoder_type a \<noteq> ''classification''"
  shows "main env a w =
     (case init_encoder env a w of
        (Inl e, w') \<Rightarrow> (Inl e, w')
      | (Inr x, w') \<Rightarrow> (Inl (ValueError decoder_type_message), w'))"
  using assms
  by (auto simp: main_def init_decoder_def and_then_def lift_def split: prod.splits sum.splits)

text \<open>
  C2, amended. In a run of \<open>main\<close> where the decoder type is neither \<open>ctc\<close> nor
  \<open>classification\<close>: the run fails, and no checkpoint file is read and no weights are
  loaded; when the configuration has been loaded, the decoder parameters and \<open>feat_in\<close>
  looked up and the factory and the encoder constructed without an error (lines 54 to
  70), the error is the \<open>ValueError\<close> of line 88, raised in the world those steps left.
\<close>

theorem unknown_decoder_type:
  assumes "decoder_type a \<noteq> ''ctc''" and "decoder_type a \<noteq> ''classification''"
  shows "(\<exists>e. fst (main env a w) = Inl e)
       \<and> (\<forall>x w'. init_encoder env a w = (Inr x, w') \<longrightarrow>
             main env a w = (Inl (ValueError decoder_type_message), w'))
       \<and> filter (\<lambda>(f, ev). reads_checkpoint ev) (trace (snd (main env a w)))
           = filter (\<lambda>(f, ev). reads_checkpoint ev) (trace w)"
proof -
  note m = main_unknown_decoder_type [OF assms, of env w]
  obtain r0 w0 where i: "init_encoder env a w = (r0, w0)" by (cases "init_encoder env a w")
  from init_encoder_world [OF i] obtain evs where
    t: "trace w0 = trace w @ evs"
    and evs: "list_all (\<lambda>(f, ev). \<not> reads_checkpoint ev \<and> \<not> is_export ev) evs" by blast
  have "list_all (\<lambda>x. \<not> (case x of (f, ev) \<Rightarrow> reads_checkpoint ev)) evs"
    using evs by (auto simp: list_all_iff)
  then have fl: "filter (\<lambda>(f, ev). reads_checkpoint ev) (trace w0)
      = filter (\<lambda>(f, ev). reads_checkpoint ev) (trace w)"
    unfolding t by (rule filter_no_new)
  have w0: "snd (main env a w) = w0" using m i by (cases r0) simp_all
  have "\<exists>e. fst (main env a w) = Inl e" using m i by (cases r0) simp_all
  moreover have "\<forall>x w'. init_encoder env a w = (Inr x, w') \<longrightarrow>
             main env a w = (Inl (ValueError decoder_type_message), w')"
    using m by simp
  ultimately show ?thesis using fl w0 by simp
qed

lemmas run_eval = main_def init_encoder_def init_decoder_def load_checkpoints_def
  create_export_dirs_def ensure_export_dir_def make_dirs_def export_models_def export_module_def
  and_then_def lift_def call_def bind_err_def decoder_params_of_def encoder_params_of_def
  zeros_def sample_env_def sample_args_def sample_config_def fresh_world_def

lemma sample_init_encoder:
  "init_encoder (sample_env sample_config) (sample_args kind) fresh_world =
     (Inr (sample_config,
           YMap [(''feat_in'', YInt 1024), (''num_classes'', YInt 2),
                 (''vocabulary'', YSeq [YStr ''a'', YStr ''b''])],
           YInt 1024, JasperEncoder (YMap [(''feat_in'', YInt 64)])),
      \<lparr>files = {}, trace = [({}, ReadConfig ''jasper.yaml''), ({}, NewFactory),
          ({}, Construct (JasperEncoder (YMap [(''feat_in'', YInt 64)])))]\<rparr>)"
  by (simp add: run_eval)

text \<open>
  The sample run with the decoder type \<open>transducer\<close>: the configuration is read, the
  factory and the encoder are constructed, and the run ends with the \<open>ValueError\<close>.
\<close>

theorem unknown_decoder_type_witness:
  "decoder_type (sample_args ''transducer'') \<noteq> ''ctc''
   \<and> decoder_type (sample_args ''transducer'') \<noteq> ''classification''
   \<and> main (sample_env sample_config) (sample_args ''transducer'') fresh_world =
       (Inl (ValueError decoder_type_message),
        \<lparr>files = {}, trace = [({}, ReadConfig ''jasper.yaml''), ({}, NewFactory),
          ({}, Construct (JasperEncoder (YMap [(''feat_in'', YInt 64)])))]\<rparr>)
   \<and> filter (\<lambda>(f, ev). reads_checkpoint ev)
        (trace (snd (main (sample_env sample_config) (sample_args ''transducer'') fresh_world))) = []"
proof -
  have h1: "decoder_type (sample_args ''transducer'') \<noteq> ''ctc''"
    and h2: "decoder_type (sample_args ''transducer'') \<noteq> ''classification''"
    by (simp_all add: sample_args_def)
  have t0: "trace fresh_world = []" by (simp add: fresh_world_def)
  note u = unknown_decoder_type [OF h1 h2, of "sample_env sample_config" fresh_world]
  from u have "main (sample_env sample_config) (sample_args ''transducer'') fresh_world =
       (Inl (ValueError decoder_type_message),
        \<lparr>files = {}, trace = [({}, ReadConfig ''jasper.yaml''), ({}, NewFactory),
          ({}, Construct (JasperEncoder (YMap [(''feat_in'', YInt 64)])))]\<rparr>)"
    using sample_init_encoder [of "''transducer''"] by blast
  moreover from u have "filter (\<lambda>(f, ev). reads_checkpoint ev)
        (trace (snd (main (sample_env sample_config) (sample_args ''transducer'') fresh_world))) = []"
    unfolding t0 by simp
  ultimately show ?thesis using h1 h2 by blast
qed

text \<open>
  With a configuration document that is an empty mapping the same run ends with a
  \<open>KeyError\<close> for \<open>init_params\<close> (line 62), not with a \<open>ValueError\<close>.
\<close>

theorem unknown_decoder_type_key_error:
  "decoder_type (sample_args ''transducer'') \<noteq> ''ctc''
   \<and> decoder_type (sample_args ''transducer'') \<noteq> ''classification''
   \<and> fst (main (sample_env (YMap [])) (sample_args ''transducer'') fresh_world)
       = Inl (KeyError ''init_params'')"
  by (simp add: run_eval)

subsection \<open>The calls of a run\<close>






subsection \<open>The sample run\<close>



lemma sample_args_fields:
  "config_file (sample_args kind) = ''jasper.yaml''"
  "nn_encoder (sample_args kind) = ''enc.pt''"
  "nn_decoder (sample_args kind) = ''dec.pt''"
  "nn_onnx_encoder (sample_args kind) = ''out/e/enc.onnx''"
  "nn_onnx_decoder (sample_args kind) = ''out/d/dec.onnx''"
  "pre_v09_model (sample_args kind) = False"
  "batch_size (sample_args kind) = 1"
  "time_steps (sample_args kind) = 5"
  "decoder_type (sample_args kind) = kind"
  by (simp_all add: sample_args_def)






subsection \<open>Dummy inputs\<close>



subsection \<open>Export directories\<close>



subsection \<open>A classification decoder without labels\<close>

lemma init_decoder_no_labels:
  assumes "decoder_type a = ''classification''" and "''labels'' \<notin> fst ` set kvs"
  shows "init_decoder env a (YMap kvs) dp feat w = (Inl (ValueError labels_message), w)"
  using assms by (simp add: init_decoder_def and_then_def lift_def)

text \<open>
  C3, amended. In a run of \<open>main\<close> with the decoder type \<open>classification\<close> whose
  configuration document is a mapping without the key \<open>labels\<close>, and in which lines
  54 to 70 raise no error: the run ends with the \<open>ValueError\<close> of line 82, before the
  decoder is constructed and before any checkpoint is read. The calls made by then
  are reading the configuration, creating the factory and constructing the encoder.
\<close>

theorem classification_without_labels:
  assumes "decoder_type a = ''classification''"
    and "load_config env (config_file a) = Inr (YMap kvs)"
    and "''labels'' \<notin> fst ` set kvs"
    and "init_encoder env a w = (Inr x, w')"
  shows "main env a w = (Inl (ValueError labels_message), w')
       \<and> files w' = files w
       \<and> (\<exists>encoder_params. trace w' = trace w @
             [(files w, ReadConfig (config_file a)), (files w, NewFactory),
              (files w, Construct (JasperEncoder encoder_params))])"
proof -
  obtain jmd dp feat enc where x: "x = (jmd, dp, feat, enc)" by (cases x)
  note ok = init_encoder_ok [OF assms(4) [unfolded x]]
  have jmd: "jmd = YMap kvs" using ok assms(2) by simp
  have "main env a w = (Inl (ValueError labels_message), w')"
    using assms(4) init_decoder_no_labels [OF assms(1,3), of env dp feat w']
    by (simp add: main_def and_then_def x jmd)
  moreover have "files w' = files w" using ok by simp
  moreover have "\<exists>encoder_params. trace w' = trace w @
             [(files w, ReadConfig (config_file a)), (files w, NewFactory),
              (files w, Construct (JasperEncoder encoder_params))]"
    using ok by auto
  ultimately show ?thesis by blast
qed

lemma sample_config_keys:
  "sample_config = YMap [(''init_params'', YMap [
       (''encoder_params'', YMap [(''init_params'', YMap [(''feat_in'', YInt 64)])]),
       (''decoder_params'', YMap [(''init_params'', YMap [
          (''feat_in'', YInt 1024), (''num_classes'', YInt 2),
          (''vocabulary'', YSeq [YStr ''a'', YStr ''b''])])])])]"
  by (simp add: sample_config_def)

text \<open>
  The sample run with the decoder type \<open>classification\<close>; the sample configuration has
  no \<open>labels\<close> entry.
\<close>

theorem classification_without_labels_witness:
  "decoder_type (sample_args ''classification'') = ''classification''
   \<and> load_config (sample_env sample_config) (config_file (sample_args ''classification''))
       = Inr sample_config
   \<and> py_in ''labels'' sample_config = Inr False
   \<and> main (sample_env sample_config) (sample_args ''classification'') fresh_world =
       (Inl (ValueError labels_message),
        \<lparr>files = {}, trace = [({}, ReadConfig ''jasper.yaml''), ({}, NewFactory),
          ({}, Construct (JasperEncoder (YMap [(''feat_in'', YInt 64)])))]\<rparr>)"
proof -
  let ?kvs = "[(''init_params'', YMap [
       (''encoder_params'', YMap [(''init_params'', YMap [(''feat_in'', YInt 64)])]),
       (''decoder_params'', YMap [(''init_params'', YMap [
          (''feat_in'', YInt 1024), (''num_classes'', YInt 2),
          (''vocabulary'', YSeq [YStr ''a'', YStr ''b''])])])])]"
  have h1: "decoder_type (sample_args ''classification'') = ''classification''"
    by (simp add: sample_args_def)
  have h2: "load_config (sample_env sample_config) (config_file (sample_args ''classification''))
       = Inr (YMap ?kvs)"
    by (simp add: sample_env_def sample_config_def)
  have h3: "''labels'' \<notin> fst ` set ?kvs" by simp
  have p: "py_in ''labels'' sample_config = Inr False" by (simp add: sample_config_def)
  from classification_without_labels [OF h1 h2 h3 sample_init_encoder [of "''classification''"]]
  have "main (sample_env sample_config) (sample_args ''classification'') fresh_world =
       (Inl (ValueError labels_message),
        \<lparr>files = {}, trace = [({}, ReadConfig ''jasper.yaml''), ({}, NewFactory),
          ({}, Construct (JasperEncoder (YMap [(''feat_in'', YInt 64)])))]\<rparr>)"
    by blast
  then show ?thesis using h1 h2 p by (simp add: sample_config_keys)
qed

text \<open>
  In that run the encoder has been constructed when the \<open>ValueError\<close> is raised; and
  with an empty mapping as configuration the run ends with a \<open>KeyError\<close> instead.
\<close>

theorem classification_without_labels_after_encoder:
  "decoder_type (sample_args ''classification'') = ''classification''
   \<and> py_in ''labels'' sample_config = Inr False
   \<and> py_in ''labels'' (YMap []) = Inr False
   \<and> fst (main (sample_env sample_config) (sample_args ''classification'') fresh_world)
       = Inl (ValueError labels_message)
   \<and> map snd (trace (snd (main (sample_env sample_config) (sample_args ''classification'') fresh_world)))
       = [ReadConfig ''jasper.yaml'', NewFactory,
          Construct (JasperEncoder (YMap [(''feat_in'', YInt 64)]))]
   \<and> fst (main (sample_env (YMap [])) (sample_args ''classification'') fresh_world)
       = Inl (KeyError ''init_params'')"
proof -
  have a: "main (sample_env sample_config) (sample_args ''classification'') fresh_world =
       (Inl (ValueError labels_message),
        \<lparr>files = {}, trace = [({}, ReadConfig ''jasper.yaml''), ({}, NewFactory),
          ({}, Construct (JasperEncoder (YMap [(''feat_in'', YInt 64)])))]\<rparr>)"
  proof -
    have d: "init_decoder (sample_env sample_config) (sample_args ''classification'')
        sample_config dp feat w = (Inl (ValueError labels_message), w)" for dp feat w
      by (simp add: init_decoder_def and_then_def lift_def sample_args_fields sample_config_def)
    show ?thesis by (simp add: main_def and_then_def sample_init_encoder d)
  qed
  have b: "fst (main (sample_env (YMap [])) (sample_args ''classification'') fresh_world)
       = Inl (KeyError ''init_params'')"
    by (simp add: run_eval)
  show ?thesis using a b by (simp add: sample_args_fields sample_config_def)
qed

end
